theory Spec2Isabelle
  imports Complex_Main
begin

section \<open>The similarity decision engine of logohunter (src/similarity.py)\<close>

text \<open>
  The two functions verified here are \<^verbatim>\<open>similarity_cutoff\<close> (the spec's
  \<^verbatim>\<open>estimate_cutoffs\<close>) and \<^verbatim>\<open>similar_matches\<close> (the spec's
  \<^verbatim>\<open>resolve_matches\<close>).

  Numbers: the arrays hold IEEE doubles (dtype \<^verbatim>\<open>float64\<close>) and the program computes
  in double precision. A double is read as the real
  number it denotes, and every floating-point operation of the source is the exact
  operation followed by the rounding \<open>fl\<close> to the nearest double; an integer that
  meets a double in a product or a comparison is first converted with \<open>fl\<close> (which
  leaves integers below \<open>2^53\<close> unchanged).

  Exceptions are values of type \<open>error\<close>; a function that can raise returns
  \<open>error + 'a\<close> with \<open>Inl\<close> for the exception. The timer and the \<^verbatim>\<open>print\<close> of
  \<^verbatim>\<open>similarity_cutoff\<close> do not influence the result and are left out.
\<close>

datatype error = IndexError | ValueError | AssertionError string

subsection \<open>Double precision\<close>

text \<open>Rounding to the nearest integer, ties to the even one (\<^verbatim>\<open>rint\<close>).\<close>

definition rint :: "real \<Rightarrow> real" where
  "rint x =
     (let f = \<lfloor>x\<rfloor>; d = x - of_int f
      in of_int (if d < 1 / 2 then f
                 else if 1 / 2 < d then f + 1
                 else if even f then f else f + 1))"

text \<open>Rounding to the nearest double, ties to the even significand: a double is an integer
  multiple of its unit in the last place \<open>2 ^ e\<close>, where \<open>e + 52\<close> is the binary exponent
  of the number, but not less than \<open>-1022\<close> (the subnormal range). Overflow to infinity is
  not modelled; no operation of the source on similarities, bin edges and thresholds in
  \<open>[-1, 1]\<close> overflows.\<close>

definition ulp_exp :: "real \<Rightarrow> int" where
  "ulp_exp x = max \<lfloor>log 2 \<bar>x\<bar>\<rfloor> (- 1022) - 52"

definition fl :: "real \<Rightarrow> real" where
  "fl x = rint (x / 2 powi ulp_exp x) * 2 powi ulp_exp x"

subsection \<open>Arrays\<close>

text \<open>The arrays of embeddings that the program passes around: the two-dimensional arrays
  of shape \<open>(n, F)\<close> for all \<open>n\<close> and \<open>F\<close>, given by \<open>F\<close> and the list of the \<open>n\<close>
  rows, and the one-dimensional empty array \<^verbatim>\<open>np.array([])\<close> of shape \<open>(0,)\<close>, which
  is what \<^verbatim>\<open>features_from_image\<close> returns for an empty batch. The rows of
  \<open>Matrix F rows\<close> are meant to have \<open>F\<close> entries each; no property below depends on
  it.\<close>

datatype ndarray = EmptyArray | Matrix nat "real list list"

fun len :: "ndarray \<Rightarrow> nat" where
  "len EmptyArray = 0"
| "len (Matrix F rows) = length rows"

fun rows_of :: "ndarray \<Rightarrow> real list list" where
  "rows_of EmptyArray = []"
| "rows_of (Matrix F rows) = rows"

text \<open>\<^verbatim>\<open>M.shape[1]\<close>: the number of columns; the shape \<open>(0,)\<close> has no index 1.\<close>

fun shape1 :: "ndarray \<Rightarrow> error + nat" where
  "shape1 EmptyArray = Inl IndexError"
| "shape1 (Matrix F rows) = Inr F"

subsection \<open>The numpy operations the source calls\<close>

text \<open>\<^verbatim>\<open>np.arange(start, stop, step)\<close> on doubles: \<open>ceil((stop - start) / step)\<close>
  values, the difference and the quotient being rounded to doubles. numpy stores \<^verbatim>\<open>start\<close> and \<^verbatim>\<open>start + step\<close>, takes their difference
  \<open>delta\<close>, and computes the value of every further index \<open>i\<close> as
  \<^verbatim>\<open>start + i*delta\<close>.\<close>

definition arange :: "real \<Rightarrow> real \<Rightarrow> real \<Rightarrow> real list" where
  "arange start stop step =
     (let next = fl (start + step); delta = fl (next - start)
      in map (\<lambda>i. if i = 0 then start
                  else if i = 1 then next
                  else fl (start + fl (real i * delta)))
           [0..<nat \<lceil>fl (fl (stop - start) / step)\<rceil>])"

text \<open>\<^verbatim>\<open>np.histogram(a, bins=edges)\<close> with a sequence of edges: \<open>length edges - 1\<close>
  bins; bin \<open>i\<close> is \<open>[edges[i], edges[i+1])\<close>, except the last one, which also contains
  its right edge. Values outside all bins are not counted. The result is the pair of the
  counts and the edges. (numpy counts by binary search in the sorted values, which is
  this count for increasing edges, and rejects edges that are not increasing; the edges
  of the source are increasing, lemma \<open>bin_edges_mono\<close>.)\<close>

definition in_bin :: "real list \<Rightarrow> nat \<Rightarrow> real \<Rightarrow> bool" where
  "in_bin edges i v =
     (edges ! i \<le> v \<and>
      (if Suc (Suc i) = length edges then v \<le> edges ! Suc i else v < edges ! Suc i))"

definition histogram :: "real list \<Rightarrow> real list \<Rightarrow> nat list \<times> real list" where
  "histogram a bins =
     (map (\<lambda>i. length (filter (in_bin bins i) a)) [0..<length bins - 1], bins)"

text \<open>\<^verbatim>\<open>np.cumsum\<close>: the running sums.\<close>

fun cumsum_from :: "nat \<Rightarrow> nat list \<Rightarrow> nat list" where
  "cumsum_from acc [] = []"
| "cumsum_from acc (x # xs) = (acc + x) # cumsum_from (acc + x) xs"

definition cumsum :: "nat list \<Rightarrow> nat list" where
  "cumsum xs = cumsum_from 0 xs"

text \<open>\<^verbatim>\<open>np.where(cond)\<close> on a one-dimensional boolean array: the indices of the true
  entries, ascending. (numpy wraps that index array in a 1-tuple; the model keeps the
  array.)\<close>

definition np_where :: "bool list \<Rightarrow> nat list" where
  "np_where cond = filter (\<lambda>i. cond ! i) [0..<length cond]"

text \<open>\<^verbatim>\<open>a[idx]\<close> with an index array, and \<^verbatim>\<open>a[-1]\<close>, which raises
  \<^verbatim>\<open>IndexError\<close> on an empty array.\<close>

definition take_indices :: "'a list \<Rightarrow> nat list \<Rightarrow> 'a list" where
  "take_indices a idx = map (\<lambda>i. a ! i) idx"

definition last_item :: "'a list \<Rightarrow> error + 'a" where
  "last_item a = (if a = [] then Inl IndexError else Inr (last a))"

text \<open>\<^verbatim>\<open>np.round(x, decimals)\<close> for \<open>decimals > 0\<close>: multiply by \<open>10 ^ decimals\<close>,
  \<^verbatim>\<open>rint\<close>, divide by \<open>10 ^ decimals\<close>; the product and the quotient are rounded to
  doubles.\<close>

definition np_round :: "real \<Rightarrow> nat \<Rightarrow> real" where
  "np_round x decimals = fl (rint (fl (x * 10 ^ decimals)) / 10 ^ decimals)"

subsection \<open>sklearn's cosine similarity\<close>

text \<open>\<^verbatim>\<open>cosine_similarity(X, Y)\<close> validates its arguments (two-dimensional, at least
  one row and one column each, the same number of columns; \<^verbatim>\<open>ValueError\<close>
  otherwise), scales each row to unit Euclidean length and returns the matrix of the dot
  products, one row per row of \<open>X\<close>, one column per row of \<open>Y\<close>. The entries are computed
  in floating point inside sklearn and BLAS, in an order of operations that the source
  does not fix; the double that results for the entry \<open>(i, j)\<close> is the parameter
  \<open>K X Y i j\<close> of the model, and nothing is assumed about it.\<close>

type_synonym kernel = "ndarray \<Rightarrow> ndarray \<Rightarrow> nat \<Rightarrow> nat \<Rightarrow> real"

fun check_array :: "ndarray \<Rightarrow> bool" where
  "check_array EmptyArray = False"
| "check_array (Matrix F rows) = (rows \<noteq> [] \<and> 0 < F)"

definition cosine_similarity :: "kernel \<Rightarrow> ndarray \<Rightarrow> ndarray \<Rightarrow> error + real list list" where
  "cosine_similarity K X Y =
     (if check_array X \<and> check_array Y \<and> shape1 X = shape1 Y
      then Inr (map (\<lambda>i. map (\<lambda>j. K X Y i j) [0..<len Y]) [0..<len X])
      else Inl ValueError)"

text \<open>The exact cosine of two rows (a row of norm 0 is left unscaled, as sklearn does).
  Where every floating-point operation of sklearn's computation is exact, as for rows of
  small integers whose Euclidean norm is a power of two, it is the entry that the program
  computes; the concrete inputs below are of this kind.\<close>

definition row_norm :: "real list \<Rightarrow> real" where
  "row_norm x = sqrt (sum_list (map (\<lambda>a. a * a) x))"

definition normalize_row :: "real list \<Rightarrow> real list" where
  "normalize_row x =
     (let n = row_norm x; n' = (if n = 0 then 1 else n) in map (\<lambda>a. a / n') x)"

definition dot :: "real list \<Rightarrow> real list \<Rightarrow> real" where
  "dot x y = sum_list (map (\<lambda>(a, b). a * b) (zip x y))"

definition cosine :: "real list \<Rightarrow> real list \<Rightarrow> real" where
  "cosine x y = dot (normalize_row x) (normalize_row y)"

definition exact_cosine :: kernel where
  "exact_cosine X Y i j = cosine (rows_of X ! i) (rows_of Y ! j)"

subsection \<open>similarity_cutoff\<close>

text \<open>The body of the loop over the rows of the similarity matrix: the histogram over the
  edges \<^verbatim>\<open>np.arange(0,1,0.001)\<close>, where \<^verbatim>\<open>0.001\<close> is the double nearest to
  \<open>1/1000\<close>; the cumulative counts; the edges at the indices whose cumulative count is
  below the double \<^verbatim>\<open>threshold*len(cs1)\<close>; and the last of them. The length and the
  counts are integers and are converted to doubles for the product and the comparison.\<close>

definition row_cutoff :: "real list \<Rightarrow> real \<Rightarrow> error + real" where
  "row_cutoff cs1 threshold =
     (let (hist, bins) = histogram cs1 (arange 0 1 (fl (1 / 1000)))
      in last_item
           (take_indices bins
              (np_where
                 (map (\<lambda>c. fl (real c) < fl (threshold * fl (real (length cs1))))
                    (cumsum hist)))))"

fun cutoff_loop :: "real list list \<Rightarrow> real \<Rightarrow> real list \<Rightarrow> error + real list" where
  "cutoff_loop [] threshold cutoff_list = Inr cutoff_list"
| "cutoff_loop (cs1 # cs) threshold cutoff_list =
     (case row_cutoff cs1 threshold of
        Inl e \<Rightarrow> Inl e
      | Inr cutoff \<Rightarrow> cutoff_loop cs threshold (cutoff_list @ [cutoff]))"

definition similarity_cutoff ::
  "kernel \<Rightarrow> ndarray \<Rightarrow> ndarray \<Rightarrow> real \<Rightarrow> error + real list" where
  "similarity_cutoff K feat_input features threshold =
     (case cosine_similarity K feat_input features of
        Inl e \<Rightarrow> Inl e
      | Inr cs \<Rightarrow> cutoff_loop cs threshold [])"

subsection \<open>similar_matches\<close>

text \<open>The two assertions of the source; the spec calls them the shape-mismatch and the
  cardinality-mismatch error.\<close>

definition shape_mismatch :: error where
  "shape_mismatch = AssertionError ''matrices should have same columns''"

definition cardinality_mismatch :: error where
  "cardinality_mismatch =
     AssertionError ''there should be one similarity cutoff for each input logo''"

fun match_loop ::
  "nat list \<Rightarrow> real list list \<Rightarrow> real list \<Rightarrow> nat list list \<Rightarrow> nat list list" where
  "match_loop [] cos_sim cutoff_list match_indices = match_indices"
| "match_loop (i # is) cos_sim cutoff_list match_indices =
     match_loop is cos_sim cutoff_list
       (match_indices @ [np_where (map (\<lambda>v. cutoff_list ! i \<le> v) (cos_sim ! i))])"

definition similar_matches ::
  "kernel \<Rightarrow> ndarray \<Rightarrow> ndarray \<Rightarrow> real list \<Rightarrow> error + (nat list list \<times> real list list)" where
  "similar_matches K feat_input features_cand cutoff_list =
     (if len features_cand = 0 then Inr ([], [])
      else
       (case shape1 feat_input of
          Inl e \<Rightarrow> Inl e
        | Inr n_in \<Rightarrow>
           (case shape1 features_cand of
              Inl e \<Rightarrow> Inl e
            | Inr n_cand \<Rightarrow>
               (if n_in \<noteq> n_cand then Inl shape_mismatch
                else if length cutoff_list \<noteq> len feat_input then Inl cardinality_mismatch
                else
                 (case cosine_similarity K feat_input features_cand of
                    Inl e \<Rightarrow> Inl e
                  | Inr cs \<Rightarrow>
                     (let cos_sim = map (map (\<lambda>v. np_round v 3)) cs
                      in Inr (match_loop [0..<len feat_input] cos_sim cutoff_list [],
                              cos_sim)))))))"

subsection \<open>Vocabulary of the properties\<close>

text \<open>The bin edges of \<open>row_cutoff\<close>: 1000 doubles \<open>fl (k * fl (1/1000))\<close>, each within
  \<open>2^-52\<close> of \<open>k / 1000\<close>, bounding 999 bins numbered from 0 to 998.\<close>

definition bin_edges :: "real list" where
  "bin_edges = arange 0 1 (fl (1 / 1000))"

text \<open>The cumulative counts \<^verbatim>\<open>np.cumsum(hist)\<close> of \<open>row_cutoff\<close>.\<close>

definition cum_counts :: "real list \<Rightarrow> nat list" where
  "cum_counts cs1 = cumsum (fst (histogram cs1 bin_edges))"

text \<open>What the cumulative count of bin \<open>k\<close> counts: the similarities from the first edge,
  which is 0, up to the right edge of bin \<open>k\<close>, which is excluded except for the last
  bin.\<close>

definition count_upto :: "real list \<Rightarrow> nat \<Rightarrow> nat" where
  "count_upto cs1 k =
     length (filter (\<lambda>v. 0 \<le> v \<and>
                         (if k = 998 then v \<le> bin_edges ! 999 else v < bin_edges ! Suc k)) cs1)"

definition below_threshold :: "real list \<Rightarrow> real \<Rightarrow> nat \<Rightarrow> bool" where
  "below_threshold cs1 threshold k =
     (fl (real (count_upto cs1 k)) < fl (threshold * fl (real (length cs1))))"

text \<open>\<open>k\<close> is the highest of the 999 bins whose cumulative count is strictly below the
  double \<open>threshold * B\<close>, where \<open>B = length cs1\<close>.\<close>

definition highest_bin :: "real list \<Rightarrow> real \<Rightarrow> nat \<Rightarrow> bool" where
  "highest_bin cs1 threshold k =
     (k < 999 \<and> below_threshold cs1 threshold k \<and>
      (\<forall>j<999. below_threshold cs1 threshold j \<longrightarrow> j \<le> k))"

subsection \<open>The cutoff in the spec's words\<close>





section \<open>Properties of the model\<close>

subsection \<open>Rounding\<close>

lemma rint_of_int [simp]: "rint (of_int n) = of_int n"
  by (simp add: rint_def)

lemma rint_0 [simp]: "rint 0 = 0"
  using rint_of_int [of 0] by simp

lemma rint_error: "\<bar>rint x - x\<bar> \<le> 1 / 2"
  unfolding rint_def Let_def
  by (auto simp: abs_if) linarith+

lemma rint_bounds: "of_int \<lfloor>x\<rfloor> \<le> rint x \<and> rint x \<le> of_int \<lfloor>x\<rfloor> + 1"
  unfolding rint_def Let_def by auto

lemma rint_mono: "x \<le> y \<Longrightarrow> rint x \<le> rint y"
proof -
  assume xy: "x \<le> y"
  then have f: "\<lfloor>x\<rfloor> \<le> \<lfloor>y\<rfloor>" by (rule floor_mono)
  show ?thesis
  proof (cases "\<lfloor>x\<rfloor> = \<lfloor>y\<rfloor>")
    case True
    with xy show ?thesis
      unfolding rint_def Let_def by auto
  next
    case False
    with f have "\<lfloor>x\<rfloor> + 1 \<le> \<lfloor>y\<rfloor>" by simp
    then have "(of_int \<lfloor>x\<rfloor> :: real) + 1 \<le> of_int \<lfloor>y\<rfloor>"
      by (metis of_int_1 of_int_add of_int_le_iff)
    with rint_bounds [of x] rint_bounds [of y] show ?thesis by linarith
  qed
qed

lemma rint_minus: "rint (- x) = - rint x"
proof (cases "x = of_int \<lfloor>x\<rfloor>")
  case True
  then obtain n where "x = of_int n" ..
  then have "- x = of_int (- n)" by simp
  then show ?thesis
    using \<open>x = of_int n\<close> by (metis rint_of_int of_int_minus)
next
  case False
  then have lt: "of_int \<lfloor>x\<rfloor> < x"
    using of_int_floor_le [of x] by linarith
  have fm: "\<lfloor>- x\<rfloor> = - \<lfloor>x\<rfloor> - 1"
    using lt by (intro floor_unique) (auto, linarith)
  show ?thesis
    unfolding rint_def Let_def fm using lt
    by (auto simp: ) 
qed

lemma ulp_pos: "0 < (2::real) powi ulp_exp x"
  by simp

lemma ulp_exp_minus: "ulp_exp (- x) = ulp_exp x"
  by (simp add: ulp_exp_def)

lemma fl_0: "fl 0 = 0"
  by (simp add: fl_def)

lemma fl_minus: "fl (- x) = - fl x"
  by (simp add: fl_def ulp_exp_minus rint_minus)

lemma fl_nonneg: "0 \<le> x \<Longrightarrow> 0 \<le> fl x"
proof -
  assume "0 \<le> x"
  then have "0 \<le> x / 2 powi ulp_exp x" by simp
  from rint_mono [OF this] show ?thesis by (simp add: fl_def)
qed

lemma fl_error: "\<bar>fl x - x\<bar> \<le> 2 powi ulp_exp x / 2"
proof -
  let ?u = "(2::real) powi ulp_exp x"
  have u: "0 < ?u" by simp
  have "fl x - x = (rint (x / ?u) - x / ?u) * ?u"
    using u by (simp add: fl_def field_simps)
  then have "\<bar>fl x - x\<bar> = \<bar>rint (x / ?u) - x / ?u\<bar> * ?u"
    using u by (simp add: abs_mult)
  also have "\<dots> \<le> 1 / 2 * ?u"
    using rint_error [of "x / ?u"] u by (intro mult_right_mono) simp_all
  finally show ?thesis by simp
qed

lemma ulp_exp_eq:
  assumes "2 powi e \<le> \<bar>x\<bar>" and "\<bar>x\<bar> < 2 powi (e + 1)" and "- 1022 \<le> e"
  shows "ulp_exp x = e - 52"
proof -
  from assms(1) have pos: "0 < \<bar>x\<bar>"
    by (smt (verit) zero_less_power_int)
  have p: "(2::real) powr real_of_int (e + 1) = 2 powi (e + 1)" "(2::real) powr real_of_int e = 2 powi e"
    using powr_real_of_int' [of "2::real" "e + 1"] powr_real_of_int' [of "2::real" e] by simp_all
  have "(\<lfloor>log 2 \<bar>x\<bar>\<rfloor> = e) =
      (2 powr real_of_int e \<le> \<bar>x\<bar> \<and> \<bar>x\<bar> < 2 powr real_of_int (e + 1))"
    by (rule floor_log_eq_powr_iff) (use pos in simp_all)
  with assms(1,2) have "\<lfloor>log 2 \<bar>x\<bar>\<rfloor> = e"
    unfolding p by simp
  with assms(3) show ?thesis by (simp add: ulp_exp_def)
qed

lemma fl_eq:
  assumes "2 powi e \<le> \<bar>x\<bar>" and "\<bar>x\<bar> < 2 powi (e + 1)" and "- 1022 \<le> e"
  shows "fl x = rint (x / 2 powi (e - 52)) * 2 powi (e - 52)"
  by (simp add: fl_def ulp_exp_eq [OF assms])

lemma ulp_exp_small: "\<bar>x\<bar> < 1 \<Longrightarrow> x \<noteq> 0 \<Longrightarrow> ulp_exp x \<le> - 53"
proof -
  assume a: "\<bar>x\<bar> < 1" "x \<noteq> 0"
  then have "log 2 \<bar>x\<bar> < 0" by simp
  then have "\<lfloor>log 2 \<bar>x\<bar>\<rfloor> \<le> - 1" by linarith
  then show ?thesis by (simp add: ulp_exp_def)
qed

lemma fl_error_small: "\<bar>x\<bar> < 1 \<Longrightarrow> \<bar>fl x - x\<bar> \<le> 1 / 2 ^ 54"
proof (cases "x = 0")
  case True
  then show ?thesis by (simp add: fl_0)
next
  case False
  assume "\<bar>x\<bar> < 1"
  from ulp_exp_small [OF this False] have "(2::real) powi ulp_exp x \<le> 2 powi (- 53)"
    by (intro power_int_increasing) simp_all
  with fl_error [of x] show ?thesis
    by (simp add: power_int_minus field_simps)
qed

lemma ulp_exp_mono: "0 < x \<Longrightarrow> x \<le> y \<Longrightarrow> ulp_exp x \<le> ulp_exp y"
proof -
  assume a: "0 < x" "x \<le> y"
  then have "log 2 \<bar>x\<bar> \<le> log 2 \<bar>y\<bar>" by simp
  then have "\<lfloor>log 2 \<bar>x\<bar>\<rfloor> \<le> \<lfloor>log 2 \<bar>y\<bar>\<rfloor>" by (rule floor_mono)
  then show ?thesis by (simp add: ulp_exp_def)
qed

lemma below_next_binade: "0 < x \<Longrightarrow> x < 2 powi (ulp_exp x + 53)"
proof -
  assume x: "0 < x"
  have "log 2 x < real_of_int (\<lfloor>log 2 x\<rfloor> + 1)" by linarith
  also have "\<dots> \<le> real_of_int (ulp_exp x + 53)"
    using x by (simp add: ulp_exp_def)
  finally have "x < 2 powr real_of_int (ulp_exp x + 53)"
    using x by (simp only: log_less_iff [symmetric]) 
  then show ?thesis
    using powr_real_of_int' [of "2::real" "ulp_exp x + 53"] by simp
qed

lemma above_binade: "0 < y \<Longrightarrow> - 1074 < ulp_exp y \<Longrightarrow> 2 powi (ulp_exp y + 52) \<le> y"
proof -
  assume y: "0 < y" and b: "- 1074 < ulp_exp y"
  from b y have "real_of_int (ulp_exp y + 52) = real_of_int \<lfloor>log 2 y\<rfloor>"
    by (simp add: ulp_exp_def max_def split: if_splits)
  also have "\<dots> \<le> log 2 y" by simp
  finally have "2 powr real_of_int (ulp_exp y + 52) \<le> y"
    using y by (simp only: le_log_iff [symmetric]) 
  then show ?thesis
    using powr_real_of_int' [of "2::real" "ulp_exp y + 52"] by simp
qed

lemma fl_mono_pos:
  assumes "0 < x" and "x \<le> y"
  shows "fl x \<le> fl y"
proof (cases "ulp_exp x = ulp_exp y")
  case True
  have "x / 2 powi ulp_exp y \<le> y / 2 powi ulp_exp y"
    using assms(2) by (simp add: divide_right_mono)
  from rint_mono [OF this] show ?thesis
    by (simp add: fl_def True mult_right_mono)
next
  case False
  let ?a = "ulp_exp x" and ?b = "ulp_exp y"
  from assms have y: "0 < y" by simp
  from False ulp_exp_mono [OF assms] have ab: "?a < ?b" by simp
  have "- 1074 \<le> ?a" by (simp add: ulp_exp_def)
  with ab have b: "- 1074 < ?b" by simp
  have "x / 2 powi ?a < 2 powi (?a + 53) / 2 powi ?a"
    using below_next_binade [OF assms(1)] by (simp add: divide_strict_right_mono)
  also have "\<dots> = of_int (2 ^ 53)"
    by (simp add: power_int_add)
  finally have "rint (x / 2 powi ?a) \<le> rint (of_int (2 ^ 53))"
    by (intro rint_mono) simp
  then have "fl x \<le> of_int (2 ^ 53) * 2 powi ?a"
    unfolding fl_def rint_of_int by (intro mult_right_mono) simp_all
  also have "\<dots> = 2 powi (?a + 53)"
    by (simp add: power_int_add)
  also have "\<dots> \<le> 2 powi (?b + 52)"
    using ab by (intro power_int_increasing) simp_all
  finally have 1: "fl x \<le> 2 powi (?b + 52)" .
  have "of_int (2 ^ 52) = (2::real) powi (?b + 52) / 2 powi ?b"
    by (simp add: power_int_add)
  also have "\<dots> \<le> y / 2 powi ?b"
    using above_binade [OF y b] by (simp add: divide_right_mono)
  finally have "rint (of_int (2 ^ 52)) \<le> rint (y / 2 powi ?b)"
    by (intro rint_mono)
  then have "of_int (2 ^ 52) * 2 powi ?b \<le> fl y"
    unfolding fl_def rint_of_int by (intro mult_right_mono) simp_all
  then have "2 powi (?b + 52) \<le> fl y"
    by (simp add: power_int_add)
  with 1 show ?thesis by linarith
qed

lemma fl_mono: "x \<le> y \<Longrightarrow> fl x \<le> fl y"
proof -
  assume xy: "x \<le> y"
  consider "0 < x" | "x \<le> 0" "0 \<le> y" | "y < 0" by linarith
  then show ?thesis
  proof cases
    case 1
    then show ?thesis using xy by (rule fl_mono_pos)
  next
    case 2
    from fl_nonneg [of "- x"] 2(1) have "fl x \<le> 0" by (simp add: fl_minus)
    with fl_nonneg [OF 2(2)] show ?thesis by linarith
  next
    case 3
    with xy have "0 < - y" "- y \<le> - x" by simp_all
    from fl_mono_pos [OF this] show ?thesis by (simp add: fl_minus)
  qed
qed

subsection \<open>The bin edges\<close>

lemma fl_step: "fl (1 / 1000) = 1152921504606847 / 1152921504606846976"
  by (subst fl_eq [of "- 10"]) (simp_all add: power_int_minus rint_def Let_def)

lemma fl_step_fixed:
  "fl (1152921504606847 / 1152921504606846976) = 1152921504606847 / 1152921504606846976"
  by (subst fl_eq [of "- 10"]) (simp_all add: power_int_minus rint_def Let_def)

lemma fl_stop_by_step: "fl (fl (1 - 0) / fl (1 / 1000)) = 1000"
proof -
  have "fl 1 = 1"
    by (subst fl_eq [of 0]) (simp_all add: power_int_minus rint_def Let_def)
  moreover have "fl (1 / (1152921504606847 / 1152921504606846976)) = 1000"
    by (subst fl_eq [of 9]) (simp_all add: power_int_minus rint_def Let_def)
  ultimately show ?thesis
    by (simp add: fl_step)
qed

lemma length_bin_edges: "length bin_edges = 1000"
  unfolding bin_edges_def arange_def Let_def fl_stop_by_step by simp

text \<open>With the start 0, the stored difference \<open>delta\<close> is the step itself, and every
  edge, the first two included, is the rounded product of its index and the step.\<close>

lemma nth_bin_edges: "k < 1000 \<Longrightarrow> bin_edges ! k = fl (fl (real k * fl (1 / 1000)))"
proof -
  assume k: "k < 1000"
  have "bin_edges ! k =
      (if k = 0 then 0
       else if k = 1 then fl (0 + fl (1 / 1000))
       else fl (0 + fl (real k * fl (fl (0 + fl (1 / 1000)) - 0))))"
    unfolding bin_edges_def arange_def Let_def fl_stop_by_step using k by simp
  then show ?thesis
    by (simp add: fl_step fl_step_fixed fl_0)
qed

lemma bin_edges_0: "bin_edges ! 0 = 0"
  by (simp add: nth_bin_edges fl_0)

lemma bin_edges_mono: "j \<le> k \<Longrightarrow> k < 1000 \<Longrightarrow> bin_edges ! j \<le> bin_edges ! k"
proof -
  assume jk: "j \<le> k" "k < 1000"
  have "0 \<le> fl (1 / 1000)" by (rule fl_nonneg) simp
  then have "real j * fl (1 / 1000) \<le> real k * fl (1 / 1000)"
    using jk(1) by (intro mult_right_mono) simp_all
  then show ?thesis
    using jk by (simp add: nth_bin_edges fl_mono)
qed

lemma bin_edges_close:
  assumes "k < 1000"
  shows "\<bar>bin_edges ! k - real k / 1000\<bar> \<le> 1 / 2 ^ 52"
proof -
  define x where "x = real k * (1152921504606847 / 1152921504606846976)"
  define r where "r = real k / 1000"
  have k: "0 \<le> real k" "real k \<le> 999" using assms by simp_all
  have e: "bin_edges ! k = fl (fl x)"
    by (simp add: nth_bin_edges [OF assms] fl_step x_def)
  define eps :: real where "eps = 1 / 2 ^ 54"
  have "x - r = real k * (24 / (1000 * 2 ^ 60))"
    by (simp add: x_def r_def field_simps)
  moreover have "real k * (24 / (1000 * 2 ^ 60)) \<le> 999 * (24 / (1000 * 2 ^ 60))"
    using k by (intro mult_right_mono) simp_all
  moreover have "0 \<le> real k * (24 / (1000 * 2 ^ 60))"
    using k by simp
  ultimately have d: "0 \<le> x - r" "x - r \<le> eps"
    by (simp_all add: eps_def)
  have r: "0 \<le> r" "r \<le> 999 / 1000" using k by (simp_all add: r_def)
  have s: "eps < 1 / 4000" "(1::real) / 2 ^ 52 = 4 * eps" by (simp_all add: eps_def)
  from d r s have x1: "\<bar>x\<bar> < 1" by linarith
  from fl_error_small [OF x1] have e1: "\<bar>fl x - x\<bar> \<le> eps" by (simp add: eps_def)
  with d r s have y1: "\<bar>fl x\<bar> < 1" by linarith
  from fl_error_small [OF y1] have e2: "\<bar>fl (fl x) - fl x\<bar> \<le> eps" by (simp add: eps_def)
  from e1 e2 d s have "\<bar>fl (fl x) - r\<bar> \<le> 1 / 2 ^ 52" by linarith
  then show ?thesis by (simp add: e r_def)
qed

lemma bin_edges_strict: "Suc k < 1000 \<Longrightarrow> bin_edges ! k < bin_edges ! Suc k"
proof -
  assume k: "Suc k < 1000"
  then have k': "k < 1000" by simp
  define eps :: real where "eps = 1 / 2 ^ 52"
  have s: "eps < 1 / 4000" by (simp add: eps_def)
  have "real (Suc k) / 1000 = real k / 1000 + 1 / 1000" by (simp add: field_simps)
  with bin_edges_close [OF k] bin_edges_close [OF k'] s show ?thesis
    unfolding eps_def [symmetric] by linarith
qed

lemma bin_edges_range: "k < 1000 \<Longrightarrow> 0 \<le> bin_edges ! k \<and> bin_edges ! k < 1"
proof -
  assume k: "k < 1000"
  define eps :: real where "eps = 1 / 2 ^ 52"
  have s: "eps < 1 / 4000" by (simp add: eps_def)
  from bin_edges_mono [of 0 k] k have "0 \<le> bin_edges ! k" by (simp add: bin_edges_0)
  moreover have "real k / 1000 \<le> 999 / 1000" using k by simp
  with bin_edges_close [OF k] s have "bin_edges ! k < 1"
    unfolding eps_def [symmetric] by linarith
  ultimately show ?thesis ..
qed

subsection \<open>The histogram and its cumulative counts\<close>

lemma length_cumsum_from: "length (cumsum_from acc xs) = length xs"
  by (induction xs arbitrary: acc) auto

lemma nth_cumsum_from:
  "k < length xs \<Longrightarrow> cumsum_from acc xs ! k = acc + sum_list (take (Suc k) xs)"
proof (induction xs arbitrary: acc k)
  case Nil
  then show ?case by simp
next
  case (Cons x xs)
  show ?case
  proof (cases k)
    case 0
    then show ?thesis by simp
  next
    case (Suc j)
    with Cons.prems have "j < length xs" by simp
    from Cons.IH [OF this, of "acc + x"] Suc show ?thesis by simp
  qed
qed

lemma length_cum_counts: "length (cum_counts cs1) = 999"
  by (simp add: cum_counts_def cumsum_def histogram_def length_cumsum_from length_bin_edges)

lemma length_filter_disj:
  "(\<And>v. \<not> (P v \<and> Q v)) \<Longrightarrow>
   length (filter (\<lambda>v. P v \<or> Q v) xs) = length (filter P xs) + length (filter Q xs)"
  by (induction xs) auto

lemma in_bin_edges:
  "i < 999 \<Longrightarrow> in_bin bin_edges i v =
     (bin_edges ! i \<le> v \<and> (if i = 998 then v \<le> bin_edges ! 999 else v < bin_edges ! Suc i))"
  by (auto simp: in_bin_def length_bin_edges)

lemma sum_bins_count:
  "k < 999 \<Longrightarrow>
   sum_list (map (\<lambda>i. length (filter (in_bin bin_edges i) cs1)) [0..<Suc k])
     = count_upto cs1 k"
proof (induction k)
  case 0
  have "in_bin bin_edges 0 = (\<lambda>v. 0 \<le> v \<and> v < bin_edges ! Suc 0)"
    by (auto simp: fun_eq_iff in_bin_edges bin_edges_0)
  then show ?case
    by (simp add: count_upto_def)
next
  case (Suc k)
  then have k: "k < 999" "Suc k < 999" by simp_all
  let ?P = "\<lambda>v. 0 \<le> v \<and> v < bin_edges ! Suc k"
  let ?Q = "in_bin bin_edges (Suc k)"
  have lo: "0 \<le> bin_edges ! Suc k"
    using bin_edges_range [of "Suc k"] k by simp
  have up: "bin_edges ! Suc k < bin_edges ! Suc (Suc k)"
    using bin_edges_strict [of "Suc k"] k by simp
  have a: "count_upto cs1 k = length (filter ?P cs1)"
    using k by (simp add: count_upto_def)
  have b: "length (filter (\<lambda>v. ?P v \<or> ?Q v) cs1) = length (filter ?P cs1) + length (filter ?Q cs1)"
    by (rule length_filter_disj) (use k in \<open>auto simp: in_bin_edges\<close>)
  have c: "(\<lambda>v. ?P v \<or> ?Q v) =
      (\<lambda>v. 0 \<le> v \<and> (if Suc k = 998 then v \<le> bin_edges ! 999 else v < bin_edges ! Suc (Suc k)))"
  proof (rule ext)
    fix v
    show "(?P v \<or> ?Q v) =
      (0 \<le> v \<and> (if Suc k = 998 then v \<le> bin_edges ! 999 else v < bin_edges ! Suc (Suc k)))"
    proof (cases "Suc k = 998")
      case True
      then have "Suc (Suc k) = 999" by simp
      with lo up True k show ?thesis
        by (simp add: in_bin_edges) linarith
    next
      case False
      with lo up k show ?thesis
        by (simp add: in_bin_edges) linarith
    qed
  qed
  have "count_upto cs1 (Suc k) = length (filter (\<lambda>v. ?P v \<or> ?Q v) cs1)"
    unfolding c by (simp add: count_upto_def)
  with a b Suc.IH [OF k(1)] show ?case
    by simp
qed

text \<open>The cumulative count that the source computes for bin \<open>k\<close> is the number of
  similarities between 0 and the right edge of bin \<open>k\<close>.\<close>

lemma nth_cum_counts: "k < 999 \<Longrightarrow> cum_counts cs1 ! k = count_upto cs1 k"
proof -
  assume k: "k < 999"
  let ?h = "map (\<lambda>i. length (filter (in_bin bin_edges i) cs1)) [0..<999]"
  have "cum_counts cs1 ! k = sum_list (take (Suc k) ?h)"
    using k by (simp add: cum_counts_def cumsum_def histogram_def length_bin_edges nth_cumsum_from)
  also have "take (Suc k) ?h = map (\<lambda>i. length (filter (in_bin bin_edges i) cs1)) [0..<Suc k]"
    using k by (simp only: take_map take_upt) simp
  finally show ?thesis using sum_bins_count [OF k] by simp
qed

lemma length_filter_mono:
  "(\<And>v. P v \<Longrightarrow> Q v) \<Longrightarrow> length (filter P xs) \<le> length (filter Q xs)"
  by (induction xs) auto

lemma count_upto_mono: "j \<le> k \<Longrightarrow> k < 999 \<Longrightarrow> count_upto cs1 j \<le> count_upto cs1 k"
proof -
  assume jk: "j \<le> k" "k < 999"
  have m: "bin_edges ! Suc j \<le> bin_edges ! Suc k" "bin_edges ! Suc j \<le> bin_edges ! 999"
    using jk by (simp_all add: bin_edges_mono)
  show ?thesis
    unfolding count_upto_def
  proof (rule length_filter_mono)
    fix v
    assume "0 \<le> v \<and> (if j = 998 then v \<le> bin_edges ! 999 else v < bin_edges ! Suc j)"
    with m jk show "0 \<le> v \<and> (if k = 998 then v \<le> bin_edges ! 999 else v < bin_edges ! Suc k)"
      by (auto split: if_splits)
  qed
qed

lemma bin_edges_1: "bin_edges ! Suc 0 = 1152921504606847 / 1152921504606846976"
  by (simp add: nth_bin_edges fl_step fl_step_fixed)

lemma count_upto_first_bin_all:
  assumes "\<forall>v\<in>set cs1. 0 \<le> v \<and> v < 1 / 1000"
  shows "count_upto cs1 0 = length cs1"
proof -
  have "(1::real) / 1000 \<le> bin_edges ! Suc 0" by (simp add: bin_edges_1)
  with assms have "filter (\<lambda>v. 0 \<le> v \<and> v < bin_edges ! Suc 0) cs1 = cs1"
    by (intro filter_True) force
  then show ?thesis by (simp add: count_upto_def)
qed


subsection \<open>The cutoff of one row\<close>

lemma last_filter_upt:
  "filter P [0..<n] \<noteq> [] \<Longrightarrow>
   last (filter P [0..<n]) < n \<and> P (last (filter P [0..<n])) \<and>
   (\<forall>j<n. P j \<longrightarrow> j \<le> last (filter P [0..<n]))"
proof (induction n)
  case 0
  then show ?case by simp
next
  case (Suc n)
  show ?case
  proof (cases "P n")
    case True
    then show ?thesis by (auto simp: less_Suc_eq)
  next
    case False
    with Suc.prems have ne: "filter P [0..<n] \<noteq> []" by simp
    from Suc.IH [OF ne] False show ?thesis
      by (auto simp: less_Suc_eq)
  qed
qed

lemma row_cutoff_filter:
  "row_cutoff cs1 threshold =
     last_item (map (\<lambda>k. bin_edges ! k) (filter (below_threshold cs1 threshold) [0..<999]))"
proof -
  let ?B = "fl (threshold * fl (real (length cs1)))"
  have w: "np_where (map (\<lambda>c. fl (real c) < ?B) (cum_counts cs1))
             = filter (below_threshold cs1 threshold) [0..<999]"
    unfolding np_where_def
    by (rule filter_cong) (simp_all add: length_cum_counts nth_cum_counts below_threshold_def)
  have "row_cutoff cs1 threshold
          = last_item (take_indices bin_edges (np_where (map (\<lambda>c. fl (real c) < ?B) (cum_counts cs1))))"
    by (simp add: row_cutoff_def histogram_def cum_counts_def bin_edges_def)
  then show ?thesis by (simp only: w take_indices_def)
qed

lemma highest_bin_unique:
  "highest_bin cs1 t k \<Longrightarrow> highest_bin cs1 t k' \<Longrightarrow> k = k'"
  by (auto simp: highest_bin_def intro: le_antisym)

lemma row_cutoff_Inr_iff:
  "row_cutoff cs1 t = Inr c \<longleftrightarrow> (\<exists>k. highest_bin cs1 t k \<and> c = bin_edges ! k)"
proof (cases "filter (below_threshold cs1 t) [0..<999] = []")
  case True
  then have "\<not> highest_bin cs1 t k" for k
    by (auto simp: highest_bin_def filter_empty_conv)
  with True show ?thesis
    by (simp add: row_cutoff_filter last_item_def)
next
  case False
  let ?k = "last (filter (below_threshold cs1 t) [0..<999])"
  from last_filter_upt [OF False] have hb: "highest_bin cs1 t ?k"
    by (simp add: highest_bin_def)
  have r: "row_cutoff cs1 t = Inr (bin_edges ! ?k)"
    using False by (simp add: row_cutoff_filter last_item_def last_map)
  show ?thesis
  proof
    assume "row_cutoff cs1 t = Inr c"
    with r hb show "\<exists>k. highest_bin cs1 t k \<and> c = bin_edges ! k" by auto
  next
    assume "\<exists>k. highest_bin cs1 t k \<and> c = bin_edges ! k"
    then obtain k where k: "highest_bin cs1 t k" "c = bin_edges ! k" by blast
    from highest_bin_unique [OF k(1) hb] k(2) r show "row_cutoff cs1 t = Inr c" by simp
  qed
qed

lemma row_cutoff_Inl_iff:
  "row_cutoff cs1 t = Inl e \<longleftrightarrow> (e = IndexError \<and> (\<forall>k<999. \<not> below_threshold cs1 t k))"
  by (auto simp: row_cutoff_filter last_item_def filter_empty_conv)

lemma row_cutoff_cases:
  "(\<exists>k. highest_bin cs1 t k \<and> row_cutoff cs1 t = Inr (bin_edges ! k)) \<or>
   (row_cutoff cs1 t = Inl IndexError \<and> (\<forall>k<999. \<not> below_threshold cs1 t k))"
proof (cases "row_cutoff cs1 t")
  case (Inl e)
  then show ?thesis by (simp add: row_cutoff_Inl_iff)
next
  case (Inr c)
  then show ?thesis by (auto simp: row_cutoff_Inr_iff)
qed

lemma highest_bin_at:
  assumes "k < 999" "below_threshold cs1 t k" "k = 998 \<or> \<not> below_threshold cs1 t (Suc k)"
  shows "highest_bin cs1 t k"
proof -
  have "j \<le> k" if j: "j < 999" "below_threshold cs1 t j" for j
  proof (rule ccontr)
    assume "\<not> j \<le> k"
    then have kj: "Suc k \<le> j" by simp
    with j(1) assms(3) have nb: "\<not> below_threshold cs1 t (Suc k)" by auto
    from count_upto_mono [OF kj j(1), of cs1]
    have "fl (real (count_upto cs1 (Suc k))) \<le> fl (real (count_upto cs1 j))"
      by (intro fl_mono) simp
    with j(2) have "below_threshold cs1 t (Suc k)"
      unfolding below_threshold_def by linarith
    with nb show False by simp
  qed
  with assms(1,2) show ?thesis by (simp add: highest_bin_def)
qed

lemma row_cutoff_at:
  assumes "k < 999" "below_threshold cs1 t k" "k = 998 \<or> \<not> below_threshold cs1 t (Suc k)"
  shows "row_cutoff cs1 t = Inr (bin_edges ! k)"
  using highest_bin_at [OF assms] by (auto simp: row_cutoff_Inr_iff)


lemma below_threshold_first:
  assumes "k < 999" "below_threshold cs1 t k"
  shows "below_threshold cs1 t 0"
proof -
  from count_upto_mono [of 0 k cs1] assms(1)
  have "fl (real (count_upto cs1 0)) \<le> fl (real (count_upto cs1 k))"
    by (intro fl_mono) simp
  with assms(2) show ?thesis unfolding below_threshold_def by linarith
qed

lemma row_cutoff_first_bin_full:
  assumes "\<not> below_threshold cs1 t 0"
  shows "row_cutoff cs1 t = Inl IndexError"
  using assms below_threshold_first by (auto simp: row_cutoff_Inl_iff)


lemma below_threshold_mono:
  "t1 \<le> t2 \<Longrightarrow> below_threshold cs1 t1 k \<Longrightarrow> below_threshold cs1 t2 k"
proof -
  assume a: "t1 \<le> t2" "below_threshold cs1 t1 k"
  have "t1 * fl (real (length cs1)) \<le> t2 * fl (real (length cs1))"
    using a(1) by (intro mult_right_mono fl_nonneg) simp_all
  from fl_mono [OF this] a(2) show ?thesis by (simp add: below_threshold_def)
qed

lemma row_cutoff_mono:
  assumes "t1 \<le> t2" "row_cutoff cs1 t1 = Inr c1"
  shows "\<exists>c2. row_cutoff cs1 t2 = Inr c2 \<and> c1 \<le> c2"
proof -
  from assms(2) obtain k1 where k1: "highest_bin cs1 t1 k1" "c1 = bin_edges ! k1"
    by (auto simp: row_cutoff_Inr_iff)
  then have b: "k1 < 999" "below_threshold cs1 t2 k1"
    using assms(1) by (auto simp: highest_bin_def intro: below_threshold_mono)
  with row_cutoff_cases [of cs1 t2] obtain k2 where
    k2: "highest_bin cs1 t2 k2" "row_cutoff cs1 t2 = Inr (bin_edges ! k2)"
    by blast
  from k2(1) b have "k1 \<le> k2" "k2 < 1000" by (simp_all add: highest_bin_def)
  then have "bin_edges ! k1 \<le> bin_edges ! k2" by (rule bin_edges_mono)
  with k1(2) k2(2) show ?thesis by blast
qed

subsection \<open>The loop over the rows\<close>

lemma cosine_similarity_Inr_iff:
  "cosine_similarity K X Y = Inr cs \<longleftrightarrow>
     (check_array X \<and> check_array Y \<and> shape1 X = shape1 Y \<and>
      cs = map (\<lambda>i. map (\<lambda>j. K X Y i j) [0..<len Y]) [0..<len X])"
  by (auto simp: cosine_similarity_def)

lemma cosine_similarity_Inl: "cosine_similarity K X Y = Inl e \<Longrightarrow> e = ValueError"
  by (auto simp: cosine_similarity_def split: if_splits)

lemma cutoff_loop_Inr_iff:
  "cutoff_loop cs t acc = Inr out \<longleftrightarrow>
     (\<exists>cl. out = acc @ cl \<and> list_all2 (\<lambda>r c. row_cutoff r t = Inr c) cs cl)"
proof (induction cs arbitrary: acc)
  case Nil
  then show ?case by auto
next
  case (Cons r cs)
  show ?case
  proof (cases "row_cutoff r t")
    case (Inl e)
    then show ?thesis by (auto simp: list_all2_Cons1)
  next
    case (Inr c)
    then show ?thesis
      by (auto simp: Cons.IH list_all2_Cons1)
  qed
qed

lemma cutoff_loop_Inl: "cutoff_loop cs t acc = Inl e \<Longrightarrow> e = IndexError"
  by (induction cs arbitrary: acc) (auto simp: row_cutoff_Inl_iff split: sum.splits)

lemma cutoff_loop_raises:
  "\<exists>r\<in>set cs. row_cutoff r t = Inl IndexError \<Longrightarrow> cutoff_loop cs t acc = Inl IndexError"
proof (induction cs arbitrary: acc)
  case Nil
  then show ?case by simp
next
  case (Cons r cs)
  show ?case
  proof (cases "row_cutoff r t")
    case (Inl e)
    then have "e = IndexError" by (simp add: row_cutoff_Inl_iff)
    with Inl show ?thesis by simp
  next
    case (Inr c)
    with Cons.prems have "\<exists>r\<in>set cs. row_cutoff r t = Inl IndexError" by auto
    from Cons.IH [OF this] Inr show ?thesis by simp
  qed
qed

lemma list_all2_mono_ex:
  assumes "list_all2 P xs cs" "\<And>x c. P x c \<Longrightarrow> \<exists>c'. Q x c' \<and> c \<le> (c'::real)"
  shows "\<exists>cs'. list_all2 Q xs cs' \<and> list_all2 (\<le>) cs cs'"
  using assms(1)
proof (induction rule: list_all2_induct)
  case Nil
  then show ?case by simp
next
  case (Cons x xs c cs)
  from assms(2) [OF Cons.hyps(1)] obtain c' where c': "Q x c'" "c \<le> c'" by blast
  from Cons.IH obtain cs' where "list_all2 Q xs cs'" "list_all2 (\<le>) cs cs'" by blast
  with c' have "list_all2 Q (x # xs) (c' # cs') \<and> list_all2 (\<le>) (c # cs) (c' # cs')" by simp
  then show ?case by blast
qed

text \<open>The row of similarities of query \<open>q\<close>.\<close>

lemma similarity_cutoff_Inr_iff:
  "similarity_cutoff K X Y t = Inr out \<longleftrightarrow>
     (check_array X \<and> check_array Y \<and> shape1 X = shape1 Y \<and>
      length out = len X \<and>
      (\<forall>q<len X. row_cutoff (map (K X Y q) [0..<len Y]) t = Inr (out ! q)))"
proof (cases "cosine_similarity K X Y")
  case (Inl e)
  then show ?thesis
    by (auto simp: similarity_cutoff_def cosine_similarity_def split: if_splits)
next
  case (Inr cs)
  then have v: "check_array X \<and> check_array Y \<and> shape1 X = shape1 Y"
    and cs: "cs = map (\<lambda>i. map (\<lambda>j. K X Y i j) [0..<len Y]) [0..<len X]"
    by (simp_all add: cosine_similarity_Inr_iff)
  have "similarity_cutoff K X Y t = Inr out \<longleftrightarrow>
      list_all2 (\<lambda>r c. row_cutoff r t = Inr c) cs out"
    using Inr by (simp add: similarity_cutoff_def cutoff_loop_Inr_iff)
  also have "\<dots> \<longleftrightarrow> length out = len X \<and>
      (\<forall>q<len X. row_cutoff (map (K X Y q) [0..<len Y]) t = Inr (out ! q))"
    unfolding cs list_all2_conv_all_nth by auto
  finally show ?thesis using v by simp
qed

lemma similarity_cutoff_Inl:
  "similarity_cutoff K X Y t = Inl e \<Longrightarrow> e = ValueError \<or> e = IndexError"
  by (auto simp: similarity_cutoff_def split: sum.splits
      dest: cutoff_loop_Inl cosine_similarity_Inl)

lemma similarity_cutoff_raises:
  assumes "check_array X" and "check_array Y" and "shape1 X = shape1 Y"
    and "q < len X"
    and "row_cutoff (map (K X Y q) [0..<len Y]) t = Inl IndexError"
  shows "similarity_cutoff K X Y t = Inl IndexError"
proof -
  let ?cs = "map (\<lambda>i. map (\<lambda>j. K X Y i j) [0..<len Y]) [0..<len X]"
  have "map (K X Y q) [0..<len Y] \<in> set ?cs"
    unfolding set_map by (rule image_eqI [where x = q]) (use assms(4) in simp_all)
  with assms(5) have "\<exists>r\<in>set ?cs. row_cutoff r t = Inl IndexError" by blast
  from cutoff_loop_raises [OF this] assms(1-3) show ?thesis
    by (simp add: similarity_cutoff_def cosine_similarity_def)
qed

subsection \<open>The matching loop\<close>

lemma match_loop_eq:
  "match_loop idx cos_sim cutoff_list acc =
     acc @ map (\<lambda>i. np_where (map (\<lambda>v. cutoff_list ! i \<le> v) (cos_sim ! i))) idx"
  by (induction idx arbitrary: acc) simp_all


lemma check_array_shape1: "check_array X \<Longrightarrow> \<exists>F. shape1 X = Inr F \<and> 0 < F \<and> 0 < len X"
  by (cases X) auto

lemma similar_matches_result:
  assumes "check_array X" "check_array Y" "shape1 X = shape1 Y" "length cutoff_list = len X"
  shows "similar_matches K X Y cutoff_list =
     Inr (map (\<lambda>q. np_where (map (\<lambda>v. cutoff_list ! q \<le> v)
                     (map (\<lambda>j. np_round (K X Y q j) 3) [0..<len Y]))) [0..<len X],
          map (\<lambda>i. map (\<lambda>j. np_round (K X Y i j) 3) [0..<len Y]) [0..<len X])"
proof -
  let ?cs = "map (\<lambda>i. map (\<lambda>j. np_round (K X Y i j) 3) [0..<len Y]) [0..<len X]"
  from check_array_shape1 [OF assms(1)] obtain F where F: "shape1 X = Inr F" by blast
  with assms(3) have FY: "shape1 Y = Inr F" by simp
  from check_array_shape1 [OF assms(2)] have ne: "len Y \<noteq> 0" by auto
  have c: "cosine_similarity K X Y = Inr (map (\<lambda>i. map (\<lambda>j. K X Y i j) [0..<len Y]) [0..<len X])"
    using assms(1-3) by (simp add: cosine_similarity_def)
  have a: "similar_matches K X Y cutoff_list = Inr (match_loop [0..<len X] ?cs cutoff_list [], ?cs)"
    using ne assms(4)
    by (simp add: similar_matches_def F FY c Let_def comp_def)
  have b: "match_loop [0..<len X] ?cs cutoff_list [] =
      map (\<lambda>q. np_where (map (\<lambda>v. cutoff_list ! q \<le> v)
                     (map (\<lambda>j. np_round (K X Y q j) 3) [0..<len Y]))) [0..<len X]"
    unfolding match_loop_eq append_Nil by (rule map_cong) simp_all
  show ?thesis unfolding a b ..
qed

subsection \<open>Concrete doubles\<close>

lemma fl_half: "fl (1 / 2) = 1 / 2"
  by (subst fl_eq [of "- 1"]) (simp_all add: power_int_minus rint_def Let_def)

lemma fl_one: "fl 1 = 1"
  by (subst fl_eq [of 0]) (simp_all add: power_int_minus rint_def Let_def)

lemma fl_two: "fl 2 = 2"
  by (subst fl_eq [of 1]) (simp_all add: power_int_minus rint_def Let_def)

lemma fl_three_halves: "fl (3 / 2) = 3 / 2"
  by (subst fl_eq [of 0]) (simp_all add: power_int_minus rint_def Let_def)

lemma fl_three_quarters: "fl (3 / 4) = 3 / 4"
  by (subst fl_eq [of "- 1"]) (simp_all add: power_int_minus rint_def Let_def)

lemma fl_quarter: "fl (1 / 4) = 1 / 4"
  by (subst fl_eq [of "- 2"]) (simp_all add: power_int_minus rint_def Let_def)

text \<open>The double \<^verbatim>\<open>0.95\<close>, the default threshold, and its products with 1 and 2.\<close>

lemma threshold_95: "3 / 4 \<le> fl (19 / 20) \<and> fl (19 / 20) \<le> 1"
  using fl_mono [of "3 / 4" "19 / 20"] fl_mono [of "19 / 20" 1]
  by (simp add: fl_three_quarters fl_one)

lemma threshold_95_times_1: "3 / 4 \<le> fl (fl (19 / 20)) \<and> fl (fl (19 / 20)) \<le> 1"
  using fl_mono [of "3 / 4" "fl (19 / 20)"] fl_mono [of "fl (19 / 20)" 1] threshold_95
  by (simp add: fl_three_quarters fl_one)

lemma threshold_95_times_2: "3 / 2 \<le> fl (fl (19 / 20) * 2) \<and> fl (fl (19 / 20) * 2) \<le> 2"
  using fl_mono [of "3 / 2" "fl (19 / 20) * 2"] fl_mono [of "fl (19 / 20) * 2" 2] threshold_95
  by (simp add: fl_three_halves fl_two)

text \<open>The double \<^verbatim>\<open>0.4\<close> and its product with 2.\<close>

lemma threshold_40: "1 / 4 \<le> fl (2 / 5) \<and> fl (2 / 5) \<le> 1 / 2"
  using fl_mono [of "1 / 4" "2 / 5"] fl_mono [of "2 / 5" "1 / 2"]
  by (simp add: fl_quarter fl_half)

lemma threshold_40_times_2: "1 / 2 \<le> fl (fl (2 / 5) * 2) \<and> fl (fl (2 / 5) * 2) \<le> 1"
  using fl_mono [of "1 / 2" "fl (2 / 5) * 2"] fl_mono [of "fl (2 / 5) * 2" 1] threshold_40
  by (simp add: fl_half fl_one)

text \<open>Where a similarity lies relative to an edge.\<close>

lemma edge_le: "k < 1000 \<Longrightarrow> real k / 1000 + 1 / 2 ^ 52 \<le> v \<Longrightarrow> bin_edges ! k \<le> v"
  using bin_edges_close [of k] by linarith

lemma edge_gr: "k < 1000 \<Longrightarrow> v < real k / 1000 - 1 / 2 ^ 52 \<Longrightarrow> v < bin_edges ! k"
  using bin_edges_close [of k] by linarith


lemma edges_around_19_32: "bin_edges ! 593 \<le> 19 / 32 \<and> 19 / 32 < bin_edges ! 594"
  using edge_le [of 593 "19 / 32"] edge_gr [of 594 "19 / 32"] by simp

lemma edges_around_9_32: "bin_edges ! 281 \<le> 9 / 32 \<and> 9 / 32 < bin_edges ! 282"
  using edge_le [of 281 "9 / 32"] edge_gr [of 282 "9 / 32"] by simp

lemma edge_999_below_1: "bin_edges ! 999 < 1"
  using bin_edges_range [of 999] by simp

lemma ulp_exp_lower: "- 1074 \<le> ulp_exp x"
  by (simp add: ulp_exp_def)

lemma ulp_exp_upper:
  assumes "x \<noteq> 0" and "\<bar>x\<bar> < 2 powi (a + 53)" and "- 1074 \<le> a"
  shows "ulp_exp x \<le> a"
proof -
  from assms(1) have pos: "0 < \<bar>x\<bar>" by simp
  have "\<bar>x\<bar> < 2 powr real_of_int (a + 53)"
    using assms(2) powr_real_of_int' [of "2::real" "a + 53"] by simp
  then have "log 2 \<bar>x\<bar> < real_of_int (a + 53)"
    using pos by (simp only: log_less_iff [OF _ pos, of 2, simplified])
  then have "\<lfloor>log 2 \<bar>x\<bar>\<rfloor> < a + 53" by linarith
  with assms(3) show ?thesis by (simp add: ulp_exp_def)
qed

text \<open>A double is a fixed point of the rounding.\<close>

lemma fl_representable:
  assumes "- 1074 \<le> a" and "\<bar>n\<bar> < 2 ^ 53"
  shows "fl (of_int n * 2 powi a) = of_int n * 2 powi a"
proof (cases "n = 0")
  case True
  then show ?thesis by (simp add: fl_0)
next
  case False
  let ?y = "of_int n * (2::real) powi a"
  let ?b = "ulp_exp ?y"
  from False have y0: "?y \<noteq> 0" by simp
  have "\<bar>?y\<bar> = of_int \<bar>n\<bar> * 2 powi a" by (simp add: abs_mult)
  also have "\<dots> < of_int (2 ^ 53) * 2 powi a"
    using assms(2) by (intro mult_strict_right_mono) simp_all
  also have "\<dots> = 2 powi (a + 53)" by (simp add: power_int_add)
  finally have "\<bar>?y\<bar> < 2 powi (a + 53)" .
  from ulp_exp_upper [OF y0 this assms(1)] have ba: "?b \<le> a" .
  define u :: real where "u = 2 powi ?b"
  define m :: int where "m = 2 ^ nat (a - ?b)"
  have u: "0 < u" by (simp add: u_def)
  have "(2::real) powi a = 2 powi (a - ?b) * 2 powi ?b"
    by (simp add: power_int_add [symmetric])
  moreover have "(2::real) powi (a - ?b) = of_int m"
    using ba by (simp add: power_int_def m_def)
  ultimately have "(2::real) powi a = of_int m * u"
    by (simp add: u_def)
  then have "?y / u = of_int (n * m)"
    using u by simp
  then have "rint (?y / u) = ?y / u"
    by (simp only: rint_of_int)
  then have "rint (?y / u) * u = ?y"
    using u by simp
  then show ?thesis by (simp add: fl_def u_def)
qed

lemma fl_of_nat: "n < 2 ^ 53 \<Longrightarrow> fl (real n) = real n"
  using fl_representable [of 0 "int n"] by simp

lemma rint_is_int: "\<exists>n. rint x = of_int n"
  unfolding rint_def Let_def by blast

lemma fl_idem: "fl (fl x) = fl x"
proof -
  have pos: "fl (fl x) = fl x" if x: "0 < x" for x
  proof -
    let ?a = "ulp_exp x"
    obtain n where n: "rint (x / 2 powi ?a) = of_int n"
      using rint_is_int by blast
    have "0 \<le> x / 2 powi ?a" using x by simp
    from rint_mono [OF this] n have n0: "0 \<le> n" by simp
    have "x / 2 powi ?a < 2 powi (?a + 53) / 2 powi ?a"
      using below_next_binade [OF x] by (simp add: divide_strict_right_mono)
    also have "\<dots> = of_int (2 ^ 53)" by (simp add: power_int_add)
    finally have "rint (x / 2 powi ?a) \<le> rint (of_int (2 ^ 53))"
      by (intro rint_mono) simp
    with n have n1: "n \<le> 2 ^ 53"
      unfolding rint_of_int by (simp only: of_int_le_iff)
    have y: "fl x = of_int n * 2 powi ?a" by (simp add: fl_def n)
    show ?thesis
    proof (cases "n = 2 ^ 53")
      case True
      have "fl x = of_int (2 ^ 52) * 2 powi (?a + 1)"
        unfolding y True by (simp add: power_int_add)
      moreover have "fl (of_int (2 ^ 52) * 2 powi (?a + 1)) = of_int (2 ^ 52) * 2 powi (?a + 1)"
        using ulp_exp_lower [of x] by (intro fl_representable) simp_all
      ultimately show ?thesis by simp
    next
      case False
      with n0 n1 have "\<bar>n\<bar> < 2 ^ 53" by simp
      from fl_representable [OF ulp_exp_lower this] show ?thesis by (simp add: y)
    qed
  qed
  consider "0 < x" | "x = 0" | "x < 0" by linarith
  then show ?thesis
  proof cases
    case 1
    then show ?thesis by (rule pos)
  next
    case 2
    then show ?thesis by (simp add: fl_0)
  next
    case 3
    then have "0 < - x" by simp
    from pos [OF this] show ?thesis by (simp add: fl_minus)
  qed
qed

subsection \<open>Concrete inputs\<close>

lemmas cosine_defs = exact_cosine_def cosine_def dot_def normalize_row_def row_norm_def

lemma sqrt_1024: "sqrt 1024 = 32"
  by (rule real_sqrt_unique) simp_all

lemma sqrt_4194304: "sqrt 4194304 = 2048"
  by (rule real_sqrt_unique) simp_all

lemma cosine_examples:
  "cosine [1, 0] [- 1, 0] = - 1"
  "cosine [1, 0] [0, 1] = 0"
  "cosine [1, 0] [0, - 1] = 0"
  "cosine [1, 0, 0, 0, 0] [1, 0, 0, 0, 0] = 1"
  "cosine [1, 0, 0, 0, 0] [- 1, 0, 0, 0, 0] = - 1"
  "cosine [1, 0, 0, 0, 0] [19, 25, 6, 1, 1] = 19 / 32"
  "cosine [1, 0, 0, 0, 0] [9, 30, 5, 3, 3] = 9 / 32"
  "cosine [19, 25, 6, 1, 1] [1, 0, 0, 0, 0] = 19 / 32"
  "cosine [19, 25, 6, 1, 1] [- 1, 0, 0, 0, 0] = - (19 / 32)"
  "cosine [1, 0, 0, 0, 0] [1023, 1774, 25, 7, 5] = 1023 / 2048"
  "cosine [1, 0, 0, 0, 0] [1022, 1774, 52, 6, 2] = 511 / 1024"
  by (simp_all add: cosine_defs sqrt_1024 sqrt_4194304)

lemma fl_counts: "fl 0 = 0" "fl 1 = 1" "fl 2 = 2"
  by (simp_all add: fl_0 fl_one fl_two)

lemma row_cutoff_19_32: "row_cutoff [19 / 32] (fl (19 / 20)) = Inr (bin_edges ! 592)"
  using row_cutoff_at [of 592 "[19 / 32]" "fl (19 / 20)"] edges_around_19_32 threshold_95_times_1
  by (simp add: below_threshold_def count_upto_def fl_counts)

lemma row_cutoff_two_values_low:
  "row_cutoff [9 / 32, 19 / 32] (fl (2 / 5)) = Inr (bin_edges ! 280)"
  using row_cutoff_at [of 280 "[9 / 32, 19 / 32]" "fl (2 / 5)"]
    edges_around_9_32 edges_around_19_32 threshold_40_times_2 bin_edges_mono [of 282 593]
  by (simp add: below_threshold_def count_upto_def fl_counts)


lemma edge_1_pos: "0 < bin_edges ! Suc 0"
  by (simp add: bin_edges_1)

lemma row_cutoff_zero: "row_cutoff [0] (fl (19 / 20)) = Inl IndexError"
  using threshold_95_times_1 edge_1_pos
  by (intro row_cutoff_first_bin_full) (simp add: below_threshold_def count_upto_def fl_counts)

lemma row_cutoff_zeros: "row_cutoff [0, 0] (fl (19 / 20)) = Inl IndexError"
  using threshold_95_times_2 edge_1_pos
  by (intro row_cutoff_first_bin_full) (simp add: below_threshold_def count_upto_def fl_counts)

lemma row_cutoff_out_of_range: "row_cutoff [1, - 1] (1 / 2) = Inr (bin_edges ! 998)"
  using row_cutoff_at [of 998 "[1, - 1]" "1 / 2"] edge_999_below_1
  by (simp add: below_threshold_def count_upto_def fl_counts)


lemma similarity_cutoff_one_row:
  "similarity_cutoff K (Matrix F [x]) (Matrix F ys) t =
     (if ys \<noteq> [] \<and> 0 < F
      then (case row_cutoff (map (K (Matrix F [x]) (Matrix F ys) 0) [0..<length ys]) t of
              Inl e \<Rightarrow> Inl e | Inr c \<Rightarrow> Inr [c])
      else Inl ValueError)"
  by (simp add: similarity_cutoff_def cosine_similarity_def split: sum.splits)

lemma upt_2: "[0..<Suc (Suc 0)] = [0, Suc 0]"
  by (simp add: upt_rec)

lemma similarity_cutoff_two_values_low:
  "similarity_cutoff exact_cosine (Matrix 5 [[1, 0, 0, 0, 0]])
     (Matrix 5 [[9, 30, 5, 3, 3], [19, 25, 6, 1, 1]]) (fl (2 / 5)) = Inr [bin_edges ! 280]"
  by (simp add: similarity_cutoff_one_row upt_2 exact_cosine_def cosine_examples
      row_cutoff_two_values_low)

lemma similarity_cutoff_orthogonal:
  "similarity_cutoff exact_cosine (Matrix 2 [[1, 0]]) (Matrix 2 [[0, 1]]) (fl (19 / 20))
     = Inl IndexError"
  by (simp add: similarity_cutoff_one_row exact_cosine_def cosine_examples row_cutoff_zero)


lemma count_upto_le_length: "count_upto cs1 k \<le> length cs1"
  by (simp add: count_upto_def)



text \<open>The double 0.7 and the edge 700, which is the double above it: a similarity equal
  to the double 0.7 lies in bin 699, not in bin 700.\<close>

lemma fl_7_10: "fl (7 / 10) = 3152519739159347 / 4503599627370496"
  by (subst fl_eq [of "- 1"]) (simp_all add: power_int_minus rint_def Let_def)

lemma fl_7_10_fixed:
  "fl (3152519739159347 / 4503599627370496) = 3152519739159347 / 4503599627370496"
  by (subst fl_eq [of "- 1"]) (simp_all add: power_int_minus rint_def Let_def)

lemma fl_700_steps:
  "fl (201761263306198225 / 288230376151711744) = 6305039478318695 / 9007199254740992"
  by (subst fl_eq [of "- 1"]) (simp_all add: power_int_minus rint_def Let_def)

lemma fl_edge_700_fixed:
  "fl (6305039478318695 / 9007199254740992) = 6305039478318695 / 9007199254740992"
  by (subst fl_eq [of "- 1"]) (simp_all add: power_int_minus rint_def Let_def)

lemma bin_edges_700: "bin_edges ! 700 = 6305039478318695 / 9007199254740992"
  by (simp add: nth_bin_edges fl_step fl_700_steps fl_edge_700_fixed)

lemma edges_around_7_10: "bin_edges ! 699 \<le> fl (7 / 10) \<and> fl (7 / 10) < bin_edges ! 700"
  using edge_le [of 699 "fl (7 / 10)"] by (simp add: fl_7_10 bin_edges_700)

lemma row_cutoff_7_10: "row_cutoff [fl (7 / 10)] (fl (19 / 20)) = Inr (bin_edges ! 698)"
  using row_cutoff_at [of 698 "[fl (7 / 10)]" "fl (19 / 20)"] edges_around_7_10
    threshold_95_times_1 fl_nonneg [of "7 / 10"]
  by (simp add: below_threshold_def count_upto_def fl_counts)

text \<open>The similarity of \<open>[1, 0, 0, 0, 0]\<close> and \<open>[1003, 1730, 33, 1, 1]\<close> is the double
  nearest to 0.5015. Its product with 1000 is the double below 501.5 and is rounded to
  501, so that the rounded similarity is the double 0.501, which is below a cutoff
  0.502.\<close>

lemma np_round_5015:
  "np_round (fl (1003 / 2000)) 3 = fl (501 / 1000) \<and> fl (501 / 1000) < fl (251 / 500)"
proof -
  have a: "fl (1003 / 2000) = 4517110426252607 / 9007199254740992"
    by (subst fl_eq [of "- 1"]) (simp_all add: power_int_minus rint_def Let_def)
  have b: "fl (564638803281575875 / 1125899906842624) = 8822481301274623 / 17592186044416"
    by (subst fl_eq [of 8]) (simp_all add: power_int_minus rint_def Let_def)
  have c: "rint (8822481301274623 / 17592186044416) = 501"
    by (simp add: rint_def Let_def)
  have r: "np_round (fl (1003 / 2000)) 3 = fl (501 / 1000)"
    by (simp add: np_round_def a b c)
  have "\<bar>fl (501 / 1000) - 501 / 1000\<bar> \<le> 1 / 2 ^ 54"
    and "\<bar>fl (251 / 500) - 251 / 500\<bar> \<le> 1 / 2 ^ 54"
    by (rule fl_error_small, simp)+
  moreover have "(501 / 1000 :: real) + 1 / 2 ^ 54 < 251 / 500 - 1 / 2 ^ 54"
    by simp
  ultimately have "fl (501 / 1000) < fl (251 / 500)"
    by linarith
  with r show ?thesis by simp
qed

text \<open>The double 0.1 is above \<open>1/10\<close>, but its product with 10, rounded to a double, is 1:
  with ten background vectors and the threshold 0.1, a cumulative count of 1 is not below
  \<open>threshold * B\<close>.\<close>

lemma fl_tenth: "fl (1 / 10) = 3602879701896397 / 36028797018963968"
  by (subst fl_eq [of "- 4"]) (simp_all add: power_int_minus rint_def Let_def)

lemma fl_ten: "fl 10 = 10"
  by (subst fl_eq [of 3]) (simp_all add: power_int_minus rint_def Let_def)

lemma threshold_tenth_times_10: "1 < fl (1 / 10) * 10 \<and> fl (fl (1 / 10) * fl 10) = 1"
proof -
  have "fl (18014398509481985 / 18014398509481984) = 1"
    by (subst fl_eq [of 0]) (simp_all add: power_int_minus rint_def Let_def)
  then show ?thesis by (simp add: fl_tenth fl_ten)
qed

lemma row_cutoff_tenth:
  "row_cutoff [0, - 1, - 1, - 1, - 1, - 1, - 1, - 1, - 1, - 1] (fl (1 / 10)) = Inl IndexError"
  using threshold_tenth_times_10 edge_1_pos
  by (intro row_cutoff_first_bin_full)
     (simp add: below_threshold_def count_upto_def fl_counts fl_ten)

text \<open>Whenever \<open>similarity_cutoff\<close> returns, it returns one cutoff per query, each in
  \<open>[0, 1)\<close>.\<close>

lemma similarity_cutoff_returned_list:
  assumes "similarity_cutoff K feat_input features threshold = Inr cutoff_list"
  shows "length cutoff_list = len feat_input \<and> (\<forall>c\<in>set cutoff_list. 0 \<le> c \<and> c < 1)"
proof -
  from assms have l: "length cutoff_list = len feat_input"
    and r: "\<forall>q<len feat_input.
        row_cutoff (map (K feat_input features q) [0..<len features]) threshold
          = Inr (cutoff_list ! q)"
    by (simp_all add: similarity_cutoff_Inr_iff)
  have "0 \<le> c \<and> c < 1" if "c \<in> set cutoff_list" for c
  proof -
    from that obtain q where "q < length cutoff_list" "c = cutoff_list ! q"
      by (auto simp: in_set_conv_nth)
    with r l obtain k where "k < 999" "c = bin_edges ! k"
      by (auto simp: row_cutoff_Inr_iff highest_bin_def)
    with bin_edges_range [of k] show ?thesis by simp
  qed
  with l show ?thesis by blast
qed

section \<open>The claims\<close>

subsection \<open>Claims on similarity_cutoff\<close>




text \<open>Claim C5. For a fixed query matrix and a fixed background set, raising the threshold
  never lowers a cutoff: if \<open>similarity_cutoff\<close> returns the cutoffs \<open>c1\<close> at the
  threshold \<open>t1\<close> and \<open>t1 \<le> t2\<close>, then it also returns at \<open>t2\<close>, with one cutoff
  per query, each greater than or equal to the cutoff at \<open>t1\<close>. This holds for all
  thresholds, in particular for those in \<open>(0, 1]\<close>, and whatever the similarity entries
  are.\<close>

theorem similarity_cutoff_monotone:
  assumes "t1 \<le> t2" and "similarity_cutoff K feat_input features t1 = Inr c1"
  shows "\<exists>c2. similarity_cutoff K feat_input features t2 = Inr c2 \<and>
            length c2 = length c1 \<and> (\<forall>q<length c1. c1 ! q \<le> c2 ! q)"
proof -
  from assms(2) obtain cs where cs: "cosine_similarity K feat_input features = Inr cs"
    and l1: "cutoff_loop cs t1 [] = Inr c1"
    by (auto simp: similarity_cutoff_def split: sum.splits)
  from l1 have "list_all2 (\<lambda>r c. row_cutoff r t1 = Inr c) cs c1"
    by (simp add: cutoff_loop_Inr_iff)
  from list_all2_mono_ex [OF this, of "\<lambda>r c. row_cutoff r t2 = Inr c"]
    row_cutoff_mono [OF assms(1)]
  obtain c2 where c2: "list_all2 (\<lambda>r c. row_cutoff r t2 = Inr c) cs c2" "list_all2 (\<le>) c1 c2"
    by blast
  from c2(1) cs have "similarity_cutoff K feat_input features t2 = Inr c2"
    by (simp add: similarity_cutoff_def cutoff_loop_Inr_iff)
  with c2(2) show ?thesis
    by (auto simp: list_all2_conv_all_nth)
qed

text \<open>The theorem at the query \<open>[1, 0, 0, 0, 0]\<close> and two background vectors of similarity
  \<open>9/32\<close> and \<open>19/32\<close>: the cutoff is the edge 280 at the threshold 0.4 and at least
  that at the threshold 0.95.\<close>

theorem similarity_cutoff_monotone_witness:
  "fl (2 / 5) \<le> fl (19 / 20) \<and>
   similarity_cutoff exact_cosine (Matrix 5 [[1, 0, 0, 0, 0]])
     (Matrix 5 [[9, 30, 5, 3, 3], [19, 25, 6, 1, 1]]) (fl (2 / 5)) = Inr [bin_edges ! 280] \<and>
   (\<exists>c2. similarity_cutoff exact_cosine (Matrix 5 [[1, 0, 0, 0, 0]])
           (Matrix 5 [[9, 30, 5, 3, 3], [19, 25, 6, 1, 1]]) (fl (19 / 20)) = Inr c2 \<and>
         length c2 = 1 \<and> bin_edges ! 280 \<le> c2 ! 0)"
proof -
  have t: "fl (2 / 5) \<le> fl (19 / 20)" by (rule fl_mono) simp
  from similarity_cutoff_monotone [OF t similarity_cutoff_two_values_low]
  obtain c2 where
    c2: "similarity_cutoff exact_cosine (Matrix 5 [[1, 0, 0, 0, 0]])
           (Matrix 5 [[9, 30, 5, 3, 3], [19, 25, 6, 1, 1]]) (fl (19 / 20)) = Inr c2"
      "length c2 = length [bin_edges ! 280]"
      "\<forall>q<length [bin_edges ! 280]. [bin_edges ! 280] ! q \<le> c2 ! q"
    by blast
  from c2(2) have l: "length c2 = 1" by simp
  from c2(3) have "bin_edges ! 280 \<le> c2 ! 0" by simp
  with t similarity_cutoff_two_values_low c2(1) l show ?thesis by blast
qed

text \<open>Claim C7, at an input where the source fails. The query \<open>[1, 0]\<close> is orthogonal to
  both background vectors, so both similarities are 0 and fall in the first bin; at the
  threshold 0.95 the first cumulative count, 2, is not below \<open>0.95 * 2\<close>, no bin is
  selected, and \<^verbatim>\<open>[-1]\<close> raises \<^verbatim>\<open>IndexError\<close> instead of returning a list with
  one cutoff.\<close>

theorem similarity_cutoff_example_raises:
  "similarity_cutoff exact_cosine (Matrix 2 [[1, 0]]) (Matrix 2 [[0, 1], [0, - 1]])
     (fl (19 / 20)) = Inl IndexError"
  by (simp add: similarity_cutoff_one_row upt_2 exact_cosine_def cosine_examples row_cutoff_zeros)



text \<open>Claim C10. \<open>similarity_cutoff\<close> is not total on its specified domain: there are a
  threshold in \<open>(0, 1]\<close> and a non-empty background set for which it raises
  \<^verbatim>\<open>IndexError\<close>. It does so whenever, for some query, the cumulative count of the
  first bin already reaches \<open>threshold * B\<close>, both for the comparison of doubles that
  the source makes and for the exact product; in particular whenever the threshold is at
  most 1 and every background similarity of some query lies in \<open>[0, 0.001)\<close>.\<close>

theorem similarity_cutoff_not_total:
  "(\<exists>K feat_input features threshold.
      0 < threshold \<and> threshold \<le> 1 \<and> 0 < len features \<and>
      similarity_cutoff K feat_input features threshold = Inl IndexError) \<and>
   (\<forall>K feat_input features threshold q.
      check_array feat_input \<and> check_array features \<and>
      shape1 feat_input = shape1 features \<and> q < len feat_input \<and>
      fl (threshold * fl (real (len features)))
        \<le> fl (real (cum_counts (map (K feat_input features q) [0..<len features]) ! 0))
      \<longrightarrow> similarity_cutoff K feat_input features threshold = Inl IndexError) \<and>
   (\<forall>K feat_input features threshold q.
      check_array feat_input \<and> check_array features \<and>
      shape1 feat_input = shape1 features \<and> q < len feat_input \<and>
      len features < 2 ^ 53 \<and>
      threshold * real (len features)
        \<le> real (cum_counts (map (K feat_input features q) [0..<len features]) ! 0)
      \<longrightarrow> similarity_cutoff K feat_input features threshold = Inl IndexError) \<and>
   (\<forall>K feat_input features threshold q.
      check_array feat_input \<and> check_array features \<and>
      shape1 feat_input = shape1 features \<and> q < len feat_input \<and>
      threshold \<le> 1 \<and>
      (\<forall>j<len features. 0 \<le> K feat_input features q j \<and> K feat_input features q j < 1 / 1000)
      \<longrightarrow> similarity_cutoff K feat_input features threshold = Inl IndexError)"
proof (intro conjI allI impI)
  have "(0::real) < fl (19 / 20) \<and> fl (19 / 20) \<le> 1 \<and> 0 < len (Matrix 2 [[0, 1]]) \<and>
      similarity_cutoff exact_cosine (Matrix 2 [[1, 0]]) (Matrix 2 [[0, 1]]) (fl (19 / 20))
        = Inl IndexError"
    using threshold_95 by (simp add: similarity_cutoff_orthogonal)
  then show "\<exists>K feat_input features threshold.
      0 < threshold \<and> threshold \<le> 1 \<and> 0 < len features \<and>
      similarity_cutoff K feat_input features threshold = Inl IndexError"
    by blast
next
  fix K :: kernel and feat_input features threshold q
  let ?r = "map (K feat_input features q) [0..<len features]"
  assume a: "check_array feat_input \<and> check_array features \<and>
      shape1 feat_input = shape1 features \<and> q < len feat_input \<and>
      fl (threshold * fl (real (len features))) \<le> fl (real (cum_counts ?r ! 0))"
  then have "\<not> below_threshold ?r threshold 0"
    by (simp add: below_threshold_def nth_cum_counts)
  from row_cutoff_first_bin_full [OF this] a
  show "similarity_cutoff K feat_input features threshold = Inl IndexError"
    by (intro similarity_cutoff_raises [of _ _ q]) simp_all
next
  fix K :: kernel and feat_input features and threshold :: real and q
  let ?r = "map (K feat_input features q) [0..<len features]"
  assume a: "check_array feat_input \<and> check_array features \<and>
      shape1 feat_input = shape1 features \<and> q < len feat_input \<and>
      len features < 2 ^ 53 \<and>
      threshold * real (len features) \<le> real (cum_counts ?r ! 0)"
  have "count_upto ?r 0 \<le> len features"
    using count_upto_le_length [of ?r 0] by simp
  with a have c: "count_upto ?r 0 < 2 ^ 53" by simp
  from a have "fl (threshold * real (len features)) \<le> fl (real (count_upto ?r 0))"
    by (intro fl_mono) (simp add: nth_cum_counts)
  with a c have "\<not> below_threshold ?r threshold 0"
    by (simp add: below_threshold_def fl_of_nat)
  from row_cutoff_first_bin_full [OF this] a
  show "similarity_cutoff K feat_input features threshold = Inl IndexError"
    by (intro similarity_cutoff_raises [of _ _ q]) simp_all
next
  fix K :: kernel and feat_input features and threshold :: real and q
  let ?r = "map (K feat_input features q) [0..<len features]"
  assume a: "check_array feat_input \<and> check_array features \<and>
      shape1 feat_input = shape1 features \<and> q < len feat_input \<and>
      threshold \<le> 1 \<and>
      (\<forall>j<len features. 0 \<le> K feat_input features q j \<and> K feat_input features q j < 1 / 1000)"
  then have c: "count_upto ?r 0 = len features"
    by (subst count_upto_first_bin_all) auto
  from a have "threshold * fl (real (len features)) \<le> 1 * fl (real (len features))"
    by (intro mult_right_mono fl_nonneg) simp_all
  then have "fl (threshold * fl (real (len features))) \<le> fl (fl (real (len features)))"
    by (intro fl_mono) simp
  then have "\<not> below_threshold ?r threshold 0"
    by (simp add: below_threshold_def c fl_idem)
  from row_cutoff_first_bin_full [OF this] a
  show "similarity_cutoff K feat_input features threshold = Inl IndexError"
    by (intro similarity_cutoff_raises [of _ _ q]) simp_all
qed

text \<open>The theorem at the query \<open>[1, 0]\<close>, the background vector \<open>[0, 1]\<close> (similarity 0)
  and the threshold 0.95.\<close>

theorem similarity_cutoff_not_total_witness:
  "check_array (Matrix 2 [[1, 0]]) \<and> check_array (Matrix 2 [[0, 1]]) \<and>
   shape1 (Matrix 2 [[1, 0]]) = shape1 (Matrix 2 [[0, 1]]) \<and>
   0 < len (Matrix 2 [[1, 0]]) \<and> fl (19 / 20) \<le> 1 \<and>
   exact_cosine (Matrix 2 [[1, 0]]) (Matrix 2 [[0, 1]]) 0 0 = 0 \<and>
   similarity_cutoff exact_cosine (Matrix 2 [[1, 0]]) (Matrix 2 [[0, 1]]) (fl (19 / 20))
     = Inl IndexError"
proof -
  have h: "check_array (Matrix 2 [[1, 0]]) \<and> check_array (Matrix 2 [[0, 1]]) \<and>
     shape1 (Matrix 2 [[1, 0]]) = shape1 (Matrix 2 [[0, 1]]) \<and>
     0 < len (Matrix 2 [[1, 0]]) \<and> fl (19 / 20) \<le> 1 \<and>
     (\<forall>j<len (Matrix 2 [[0, 1]]).
        0 \<le> exact_cosine (Matrix 2 [[1, 0]]) (Matrix 2 [[0, 1]]) 0 j \<and>
        exact_cosine (Matrix 2 [[1, 0]]) (Matrix 2 [[0, 1]]) 0 j < 1 / 1000)"
    using threshold_95 by (simp add: exact_cosine_def cosine_examples)
  have e: "exact_cosine (Matrix 2 [[1, 0]]) (Matrix 2 [[0, 1]]) 0 0 = 0"
    by (simp add: exact_cosine_def cosine_examples)
  from similarity_cutoff_not_total h e show ?thesis by blast
qed

subsection \<open>Claims on similar_matches\<close>




text \<open>Claim C3. With an empty candidate set, be it the array \<^verbatim>\<open>np.array([])\<close> or a matrix
  without rows, \<open>similar_matches\<close> returns an empty match list and an empty similarity
  matrix, whatever the query array and the cutoff list are; it raises nothing.\<close>

theorem similar_matches_empty_candidates:
  "similar_matches K feat_input EmptyArray cutoff_list = Inr ([], []) \<and>
   similar_matches K feat_input (Matrix F []) cutoff_list = Inr ([], [])"
  by (simp add: similar_matches_def)

text \<open>The theorem at a query matrix with two rows and a single cutoff.\<close>

theorem similar_matches_empty_candidates_witness:
  "similar_matches exact_cosine (Matrix 2 [[1, 0], [0, 1]]) EmptyArray [1 / 2] = Inr ([], []) \<and>
   similar_matches exact_cosine (Matrix 2 [[1, 0], [0, 1]]) (Matrix 2 []) [1 / 2] = Inr ([], [])"
  by (rule similar_matches_empty_candidates)

text \<open>Claim C4, as amended. For every query matrix and every candidate matrix with at least
  one row, \<open>similar_matches\<close> fails with the shape-mismatch error whenever the two
  embedding widths differ, and fails with the cardinality-mismatch error whenever the
  widths agree and the number of cutoffs does not equal the number of queries (the
  widths are compared first); in either case the result is the error, and no partial
  result. The query is a matrix, with any number of rows; an array without a second axis
  has no embedding width.\<close>

theorem similar_matches_precondition_errors:
  assumes "feat_input = Matrix n_in xs" and "features_cand = Matrix n_cand ys" and "ys \<noteq> []"
  shows "(n_in \<noteq> n_cand \<longrightarrow>
            similar_matches K feat_input features_cand cutoff_list = Inl shape_mismatch) \<and>
         (n_in = n_cand \<and> length cutoff_list \<noteq> length xs \<longrightarrow>
            similar_matches K feat_input features_cand cutoff_list = Inl cardinality_mismatch)"
  using assms by (simp add: similar_matches_def)

text \<open>The theorem at four inputs: widths 2 and 3, with a query of one row and with a query
  of no rows; equal widths with two cutoffs for one query, and with one cutoff for a
  query matrix of no rows.\<close>

theorem similar_matches_precondition_errors_witness:
  "similar_matches exact_cosine (Matrix 2 [[1, 0]]) (Matrix 3 [[1, 0, 0]]) [1 / 2]
     = Inl shape_mismatch \<and>
   similar_matches exact_cosine (Matrix 2 []) (Matrix 3 [[1, 0, 0]]) []
     = Inl shape_mismatch \<and>
   similar_matches exact_cosine (Matrix 2 [[1, 0]]) (Matrix 2 [[0, 1]]) [1 / 2, 1 / 4]
     = Inl cardinality_mismatch \<and>
   similar_matches exact_cosine (Matrix 2 []) (Matrix 2 [[0, 1]]) [1 / 2]
     = Inl cardinality_mismatch"
proof -
  have n: "[[1, 0, 0 :: real]] \<noteq> []" "[[0, 1 :: real]] \<noteq> []" by simp_all
  from similar_matches_precondition_errors [where n_in = 2 and xs = "[[1, 0]]" and n_cand = 3
      and ys = "[[1, 0, 0]]" and K = exact_cosine and cutoff_list = "[1 / 2]", OF refl refl n(1)]
  have a: "similar_matches exact_cosine (Matrix 2 [[1, 0]]) (Matrix 3 [[1, 0, 0]]) [1 / 2]
     = Inl shape_mismatch" by simp
  from similar_matches_precondition_errors [where n_in = 2 and xs = "[]" and n_cand = 3
      and ys = "[[1, 0, 0]]" and K = exact_cosine and cutoff_list = "[]", OF refl refl n(1)]
  have b: "similar_matches exact_cosine (Matrix 2 []) (Matrix 3 [[1, 0, 0]]) []
     = Inl shape_mismatch" by simp
  from similar_matches_precondition_errors [where n_in = 2 and xs = "[[1, 0]]" and n_cand = 2
      and ys = "[[0, 1]]" and K = exact_cosine and cutoff_list = "[1 / 2, 1 / 4]",
      OF refl refl n(2)]
  have c: "similar_matches exact_cosine (Matrix 2 [[1, 0]]) (Matrix 2 [[0, 1]]) [1 / 2, 1 / 4]
     = Inl cardinality_mismatch" by simp
  from similar_matches_precondition_errors [where n_in = 2 and xs = "[]" and n_cand = 2
      and ys = "[[0, 1]]" and K = exact_cosine and cutoff_list = "[1 / 2]", OF refl refl n(2)]
  have d: "similar_matches exact_cosine (Matrix 2 []) (Matrix 2 [[0, 1]]) [1 / 2]
     = Inl cardinality_mismatch" by simp
  from a b c d show ?thesis by simp
qed

text \<open>The claim as stated covers every query. For the query \<^verbatim>\<open>np.array([])\<close>, which has
  no queries and no second axis, a candidate matrix with one row and one cutoff, the
  number of cutoffs differs from the number of queries, but the source raises
  \<^verbatim>\<open>IndexError\<close> when it reads the width of the query, not the cardinality-mismatch
  error.\<close>

theorem similar_matches_query_without_second_axis:
  "0 < len (Matrix 2 [[1, 0]]) \<and> length [1 / 2 :: real] \<noteq> len EmptyArray \<and>
   similar_matches exact_cosine EmptyArray (Matrix 2 [[1, 0]]) [1 / 2] = Inl IndexError \<and>
   similar_matches exact_cosine EmptyArray (Matrix 2 [[1, 0]]) [1 / 2] \<noteq> Inl cardinality_mismatch"
  by (simp add: similar_matches_def cardinality_mismatch_def)

text \<open>Claim C6, as amended. For every query matrix with \<open>Q \<ge> 1\<close> rows, every candidate
  matrix with \<open>C \<ge> 1\<close> rows of the same embedding width \<open>F \<ge> 1\<close> and every cutoff list
  of length \<open>Q\<close>, \<open>similar_matches\<close> returns a similarity matrix of exact shape
  \<open>Q \<times> C\<close>: \<open>Q\<close> rows, each of length \<open>C\<close>.\<close>

theorem similar_matches_shape:
  assumes "feat_input = Matrix F xs" and "features_cand = Matrix F ys"
    and "xs \<noteq> []" and "ys \<noteq> []" and "0 < F" and "length cutoff_list = length xs"
  shows "\<exists>match_indices cos_sim.
     similar_matches K feat_input features_cand cutoff_list = Inr (match_indices, cos_sim) \<and>
     length cos_sim = length xs \<and>
     (\<forall>row\<in>set cos_sim. length row = length ys)"
proof -
  have "similar_matches K feat_input features_cand cutoff_list =
     Inr (map (\<lambda>q. np_where (map (\<lambda>v. cutoff_list ! q \<le> v)
                     (map (\<lambda>j. np_round (K feat_input features_cand q j) 3)
                        [0..<len features_cand]))) [0..<len feat_input],
          map (\<lambda>i. map (\<lambda>j. np_round (K feat_input features_cand i j) 3)
                 [0..<len features_cand]) [0..<len feat_input])"
    using assms by (intro similar_matches_result) simp_all
  with assms(1,2) show ?thesis by auto
qed

text \<open>The theorem at a query matrix with two rows and a candidate matrix with three rows.\<close>

theorem similar_matches_shape_witness:
  "\<exists>match_indices cos_sim.
      similar_matches exact_cosine (Matrix 2 [[1, 0], [0, 1]])
        (Matrix 2 [[1, 0], [0, 1], [- 1, 0]]) [1 / 2, 1 / 4]
        = Inr (match_indices, cos_sim) \<and>
      length cos_sim = 2 \<and> length (cos_sim ! 0) = 3 \<and> length (cos_sim ! 1) = 3"
proof -
  have m: "[[1, 0], [0, 1 :: real]] \<noteq> []" "[[1, 0], [0, 1], [- 1, 0 :: real]] \<noteq> []" "(0::nat) < 2"
    "length [1 / 2, 1 / 4 :: real] = length [[1, 0], [0, 1 :: real]]"
    by simp_all
  from similar_matches_shape [OF refl refl m, of exact_cosine] obtain match_indices cos_sim where
    r: "similar_matches exact_cosine (Matrix 2 [[1, 0], [0, 1]])
        (Matrix 2 [[1, 0], [0, 1], [- 1, 0]]) [1 / 2, 1 / 4] = Inr (match_indices, cos_sim)"
    and l: "length cos_sim = length [[1, 0], [0, 1 :: real]]"
    and w: "\<forall>row\<in>set cos_sim. length row = length [[1, 0], [0, 1], [- 1, 0 :: real]]"
    by blast
  from l have l2: "length cos_sim = 2" by simp
  from l2 w have "length (cos_sim ! 0) = 3" "length (cos_sim ! 1) = 3"
    by simp_all
  with r l2 show ?thesis by blast
qed

text \<open>The claim as stated covers every query matrix with \<open>Q\<close> rows. For \<open>Q = 0\<close>, a
  candidate matrix with two rows of the same width 3 and a cutoff list of length 0, the
  source returns no matrix of shape \<open>0 \<times> 2\<close>: the cosine similarity rejects the query
  and \<^verbatim>\<open>ValueError\<close> is raised. The same happens for matrices of width 0.\<close>

theorem similar_matches_no_matrix_returned:
  "length ([] :: real list) = len (Matrix 3 []) \<and>
   similar_matches exact_cosine (Matrix 3 []) (Matrix 3 [[1, 0, 0], [0, 1, 0]]) []
     = Inl ValueError \<and>
   length [1 / 2, 1 / 4 :: real] = len (Matrix 0 [[], []]) \<and>
   similar_matches exact_cosine (Matrix 0 [[], []]) (Matrix 0 [[]]) [1 / 2, 1 / 4]
     = Inl ValueError"
  by (simp add: similar_matches_def cosine_similarity_def)

text \<open>Claim C9. With an empty candidate set \<open>similar_matches\<close> returns its empty result
  before any precondition is checked: also when the number of cutoffs differs from the
  number of queries, and also when the query array is not accepted by the cosine
  similarity (it has no second axis, no rows or no columns), the result is the empty one,
  and no error at all is raised.\<close>

theorem similar_matches_empty_skips_checks:
  assumes "len features_cand = 0"
  shows "(length cutoff_list \<noteq> len feat_input \<longrightarrow>
            similar_matches K feat_input features_cand cutoff_list = Inr ([], [])) \<and>
         (\<not> check_array feat_input \<longrightarrow>
            similar_matches K feat_input features_cand cutoff_list = Inr ([], [])) \<and>
         (\<forall>e. similar_matches K feat_input features_cand cutoff_list \<noteq> Inl e)"
  using assms by (simp add: similar_matches_def)

text \<open>The theorem at the query array \<^verbatim>\<open>np.array([])\<close>, which has no second axis, with
  one cutoff for its zero queries, and a candidate matrix without rows.\<close>

theorem similar_matches_empty_skips_checks_witness:
  "len (Matrix 2 []) = 0 \<and> length [1 / 2 :: real] \<noteq> len EmptyArray \<and>
   \<not> check_array EmptyArray \<and>
   similar_matches exact_cosine EmptyArray (Matrix 2 []) [1 / 2] = Inr ([], [])"
proof -
  have a: "len (Matrix 2 []) = 0" "length [1 / 2 :: real] \<noteq> len EmptyArray"
    "\<not> check_array EmptyArray"
    by simp_all
  from similar_matches_empty_skips_checks [OF a(1), of "[1 / 2]" EmptyArray exact_cosine] a
  show ?thesis by blast
qed

end
